theory Spec2Isabelle
  imports Main "HOL-Library.Word"
begin

unbundle bit_operations_syntax

section \<open>Data model of \<open>ver3.cpp\<close>\<close>

text \<open>
  \<open>uint32_t\<close> is \<open>32 word\<close>: \<open>+\<close> and \<open>-\<close> wrap modulo \<open>2 ^ 32\<close>. An \<open>int32_t\<close> is kept
  as its two's-complement bit pattern in the same type and read with \<open>sint\<close>; every use
  of the immediate in \<open>execute\<close> converts it to \<open>uint32_t\<close> first, which keeps the bits.
  \<open>size_t\<close> values (vector sizes and the index of \<open>load_program\<close>) are \<open>nat\<close>.
\<close>

type_synonym u32 = "32 word"

text \<open>The unscoped enumeration \<open>OPCODES\<close>.\<close>

definition LUI :: u32 where "LUI = 0x37"
definition AUIPC :: u32 where "AUIPC = 0x17"
definition JAL :: u32 where "JAL = 0x6F"
definition JALR :: u32 where "JALR = 0x67"
definition ALU_IMM :: u32 where "ALU_IMM = 0x13"
definition ALU_REG :: u32 where "ALU_REG = 0x33"

text \<open>Of \<open>FUNT3_CODES\<close> the program only ever uses \<open>ADD_SUB\<close>.\<close>

definition ADD_SUB :: u32 where "ADD_SUB = 0"

text \<open>The data members of \<open>class RiscVEmu\<close>.\<close>

record emu =
  registers :: "u32 list"
  memory :: "u32 list"
  pc :: u32

text \<open>The tuple returned by \<open>decode\<close>, one field per component, in the tuple's order.\<close>

record decoded =
  opcode :: u32
  rd :: u32
  funct3 :: u32
  rs1 :: u32
  rs2 :: u32
  funct7 :: u32
  imm :: u32

text \<open>
  \<open>std::vector::operator[]\<close> does not check its index; an access outside the vector
  has no defined behaviour. The model makes every such access the fault
  \<open>OutOfBounds\<close>, so that "no access is out of bounds" is "the result is not a fault".
\<close>

datatype fault = OutOfBounds

section \<open>Construction and loading\<close>

text \<open>The constructor \<open>RiscVEmu(size_t memory_size = 1024)\<close>.\<close>

definition RiscVEmu :: "nat \<Rightarrow> emu" where
  "RiscVEmu memory_size =
     \<lparr>registers = replicate 32 0, memory = replicate memory_size 0, pc = 0\<rparr>"

definition default_memory_size :: nat where
  "default_memory_size = 1024"

text \<open>The loop of \<open>load_program\<close>, started at index \<open>i\<close>: \<open>memory[i] = program[i]\<close>.\<close>

function load_from :: "nat \<Rightarrow> u32 list \<Rightarrow> emu \<Rightarrow> fault + emu" where
  "load_from i program s =
     (if i < length program
      then (if i < length (memory s)
            then load_from (i + 1) program (s\<lparr>memory := (memory s)[i := program ! i]\<rparr>)
            else Inl OutOfBounds)
      else Inr s)"
  by pat_completeness auto
termination
  by (relation "measure (\<lambda>(i, program, s). length program - i)") auto

definition load_program :: "u32 list \<Rightarrow> emu \<Rightarrow> fault + emu" where
  "load_program program s = load_from 0 program s"

section \<open>Fetch, decode, execute\<close>

text \<open>\<open>fetch\<close>: \<open>return memory[pc++]\<close>. The index is the \<open>uint32_t\<close> \<open>pc\<close> widened to \<open>size_t\<close>.\<close>

definition fetch :: "emu \<Rightarrow> fault + (u32 \<times> emu)" where
  "fetch s =
     (if unat (pc s) < length (memory s)
      then Inr (memory s ! unat (pc s), s\<lparr>pc := pc s + 1\<rparr>)
      else Inl OutOfBounds)"

text \<open>
  The immediate of \<open>decode\<close>, by the \<open>switch\<close> on the opcode. \<open>>>\<close> on the
  \<open>int32_t\<close> cast is the arithmetic shift \<open>signed_drop_bit\<close>, on \<open>uint32_t\<close> the
  logical shift \<open>drop_bit\<close>; \<open><<\<close> is \<open>push_bit\<close>. In the \<open>JAL\<close> case \<open><<\<close>
  binds tighter than \<open>|\<close>, and the first operand carries no shift to the left.
\<close>

definition decode_imm :: "u32 \<Rightarrow> u32 \<Rightarrow> u32" where
  "decode_imm opc instruction =
     (if opc = ALU_IMM \<or> opc = JALR then signed_drop_bit 20 instruction
      else if opc = AUIPC \<or> opc = LUI then instruction AND 0xFFFFF000
      else if opc = JAL then
        (drop_bit 12 instruction AND 0xFF)
        OR push_bit 11 (drop_bit 20 instruction AND 0x1)
        OR push_bit 1 (drop_bit 21 instruction AND 0x3FF)
        OR push_bit 20 (signed_drop_bit 31 instruction)
      else 0)"

definition decode :: "u32 \<Rightarrow> decoded" where
  "decode instruction =
     \<lparr>opcode = instruction AND 0x7F,
      rd = drop_bit 7 instruction AND 0x1F,
      funct3 = drop_bit 12 instruction AND 0x7,
      rs1 = drop_bit 15 instruction AND 0x1F,
      rs2 = drop_bit 20 instruction AND 0x1F,
      funct7 = drop_bit 25 instruction AND 0x7F,
      imm = decode_imm (instruction AND 0x7F) instruction\<rparr>"

text \<open>\<open>registers[i]\<close> as a read and \<open>registers[i] = v\<close> as a write.\<close>

definition read_reg :: "u32 \<Rightarrow> emu \<Rightarrow> fault + u32" where
  "read_reg i s =
     (if unat i < length (registers s) then Inr (registers s ! unat i) else Inl OutOfBounds)"

definition write_reg :: "u32 \<Rightarrow> u32 \<Rightarrow> emu \<Rightarrow> fault + emu" where
  "write_reg i v s =
     (if unat i < length (registers s)
      then Inr (s\<lparr>registers := (registers s)[unat i := v]\<rparr>)
      else Inl OutOfBounds)"

text \<open>
  \<open>execute\<close>. The right-hand side of an assignment is evaluated before the store;
  \<open>JALR\<close> stores the link first and reads \<open>registers[rs1]\<close> afterwards.
\<close>

definition execute :: "decoded \<Rightarrow> emu \<Rightarrow> fault + emu" where
  "execute d s =
     (if opcode d = LUI then write_reg (rd d) (imm d) s
      else if opcode d = AUIPC then write_reg (rd d) (pc s + imm d) s
      else if opcode d = JAL then
        (case write_reg (rd d) (pc s) s of
           Inl e \<Rightarrow> Inl e
         | Inr s1 \<Rightarrow> Inr (s1\<lparr>pc := pc s1 + imm d\<rparr>))
      else if opcode d = JALR then
        (case write_reg (rd d) (pc s) s of
           Inl e \<Rightarrow> Inl e
         | Inr s1 \<Rightarrow>
             (case read_reg (rs1 d) s1 of
                Inl e \<Rightarrow> Inl e
              | Inr v \<Rightarrow> Inr (s1\<lparr>pc := (v + imm d) AND NOT 1\<rparr>)))
      else if opcode d = ALU_IMM then
        (if funct3 d = ADD_SUB then
           (case read_reg (rs1 d) s of
              Inl e \<Rightarrow> Inl e
            | Inr a \<Rightarrow> write_reg (rd d) (a + imm d) s)
         else Inr s)
      else if opcode d = ALU_REG then
        (if funct3 d = ADD_SUB then
           (if funct7 d = 0 then
              (case read_reg (rs1 d) s of
                 Inl e \<Rightarrow> Inl e
               | Inr a \<Rightarrow>
                   (case read_reg (rs2 d) s of
                      Inl e \<Rightarrow> Inl e
                    | Inr b \<Rightarrow> write_reg (rd d) (a + b) s))
            else if funct7 d = 0x20 then
              (case read_reg (rs1 d) s of
                 Inl e \<Rightarrow> Inl e
               | Inr a \<Rightarrow>
                   (case read_reg (rs2 d) s of
                      Inl e \<Rightarrow> Inl e
                    | Inr b \<Rightarrow> write_reg (rd d) (a - b) s))
            else Inr s)
         else Inr s)
      else Inr s)"

section \<open>The run loop\<close>

text \<open>One iteration of the body of \<open>run\<close>: fetch, decode, execute.\<close>

definition cycle :: "emu \<Rightarrow> fault + emu" where
  "cycle s =
     (case fetch s of
        Inl e \<Rightarrow> Inl e
      | Inr (instruction, s1) \<Rightarrow> execute (decode instruction) s1)"

text \<open>
  \<open>run\<close>: \<open>while (pc < memory.size())\<close>. The loop need not end, so it is a partial
  function: \<open>None\<close> is a run that never returns. The first argument counts the calls
  of \<open>fetch\<close> made so far; it is returned with the final state and has no influence
  on the run.
\<close>

partial_function (option) run_loop :: "nat \<Rightarrow> emu \<Rightarrow> (fault + nat \<times> emu) option" where
  "run_loop n s =
     (if unat (pc s) < length (memory s)
      then (case cycle s of
              Inl e \<Rightarrow> Some (Inl e)
            | Inr s' \<Rightarrow> run_loop (Suc n) s')
      else Some (Inr (n, s)))"

definition run :: "emu \<Rightarrow> (fault + nat \<times> emu) option" where
  "run s = run_loop 0 s"

text \<open>The sequence of \<open>main\<close>: construct, \<open>load_program\<close>, \<open>run\<close>.\<close>

definition load_and_run :: "nat \<Rightarrow> u32 list \<Rightarrow> (fault + nat \<times> emu) option" where
  "load_and_run memory_size program =
     (case load_program program (RiscVEmu memory_size) of
        Inl e \<Rightarrow> Some (Inl e)
      | Inr s \<Rightarrow> run s)"

section \<open>Auxiliary facts\<close>

declare load_from.simps [simp del]

lemmas opcode_defs = LUI_def AUIPC_def JAL_def JALR_def ALU_IMM_def ALU_REG_def ADD_SUB_def

lemmas cycle_eval_defs = cycle_def fetch_def decode_def decode_imm_def execute_def read_reg_def
  write_reg_def opcode_defs nth_append

subsection \<open>Register indices and register accesses\<close>

lemma and_1F_less: "unat (w AND 0x1F :: u32) < 32"
proof -
  have "w AND 0x1F \<le> 0x1F" by (rule word_and_le1)
  then show ?thesis by (simp add: word_le_nat_alt)
qed

lemma decode_fields_less:
  "unat (rd (decode w)) < 32" "unat (rs1 (decode w)) < 32" "unat (rs2 (decode w)) < 32"
  by (simp_all add: decode_def and_1F_less)

lemma write_reg_ok:
  "unat i < length (registers s) \<Longrightarrow>
   write_reg i v s = Inr (s\<lparr>registers := (registers s)[unat i := v]\<rparr>)"
  by (simp add: write_reg_def)

lemma read_reg_ok:
  "unat i < length (registers s) \<Longrightarrow> read_reg i s = Inr (registers s ! unat i)"
  by (simp add: read_reg_def)

text \<open>With its three indices inside the register file, \<open>execute\<close> returns a state; it
  never resizes the register file and never touches memory.\<close>

lemma execute_ok:
  assumes "unat (rd d) < length (registers s)" "unat (rs1 d) < length (registers s)"
    "unat (rs2 d) < length (registers s)"
  shows "\<exists>s'. execute d s = Inr s' \<and> length (registers s') = length (registers s)
    \<and> memory s' = memory s"
  using assms by (simp add: execute_def write_reg_ok read_reg_ok)

text \<open>The state after each of the seven implemented instructions, for any destination.\<close>

lemma execute_writes:
  assumes "unat (rd d) < length (registers s)" "unat (rs1 d) < length (registers s)"
    "unat (rs2 d) < length (registers s)"
  shows "opcode d = LUI \<Longrightarrow>
      execute d s = Inr (s\<lparr>registers := (registers s)[unat (rd d) := imm d]\<rparr>)"
    and "opcode d = AUIPC \<Longrightarrow>
      execute d s = Inr (s\<lparr>registers := (registers s)[unat (rd d) := pc s + imm d]\<rparr>)"
    and "opcode d = JAL \<Longrightarrow>
      execute d s =
        Inr (s\<lparr>registers := (registers s)[unat (rd d) := pc s], pc := pc s + imm d\<rparr>)"
    and "opcode d = JALR \<Longrightarrow>
      execute d s = Inr (s\<lparr>registers := (registers s)[unat (rd d) := pc s],
        pc := ((registers s)[unat (rd d) := pc s] ! unat (rs1 d) + imm d) AND NOT 1\<rparr>)"
    and "opcode d = ALU_IMM \<Longrightarrow> funct3 d = ADD_SUB \<Longrightarrow>
      execute d s = Inr (s\<lparr>registers :=
        (registers s)[unat (rd d) := registers s ! unat (rs1 d) + imm d]\<rparr>)"
    and "opcode d = ALU_REG \<Longrightarrow> funct3 d = ADD_SUB \<Longrightarrow> funct7 d = 0 \<Longrightarrow>
      execute d s = Inr (s\<lparr>registers :=
        (registers s)[unat (rd d) := registers s ! unat (rs1 d) + registers s ! unat (rs2 d)]\<rparr>)"
    and "opcode d = ALU_REG \<Longrightarrow> funct3 d = ADD_SUB \<Longrightarrow> funct7 d = 0x20 \<Longrightarrow>
      execute d s = Inr (s\<lparr>registers :=
        (registers s)[unat (rd d) := registers s ! unat (rs1 d) - registers s ! unat (rs2 d)]\<rparr>)"
  using assms by (simp_all add: execute_def write_reg_def read_reg_def opcode_defs)

subsection \<open>Arithmetic on 32 bits\<close>

text \<open>Adding an \<open>int32_t\<close> to a \<open>uint32_t\<close>: the sum of the values, reduced modulo \<open>2 ^ 32\<close>.\<close>

lemma uint_add_sint: "uint (a + b :: u32) = (uint a + sint b) mod 2 ^ 32"
proof -
  have "uint (word_of_int (uint a + sint b) :: u32) = (uint a + sint b) mod 2 ^ 32"
    by (subst uint_word_of_int) simp
  moreover have "word_of_int (uint a + sint b) = a + b" by simp
  ultimately show ?thesis by (simp only:)
qed

text \<open>\<open>pc++\<close> does not wrap while \<open>pc\<close> indexes a memory of fewer than \<open>2 ^ 32\<close> words.\<close>

lemma unat_pc_succ:
  "unat (p :: u32) < n \<Longrightarrow> n < 2 ^ 32 \<Longrightarrow> unat (p + 1) = unat p + 1"
  by (simp add: unat_word_ariths)

subsection \<open>Loading\<close>

text \<open>A program that fits overwrites a prefix of memory and leaves the rest.\<close>

lemma load_from_eq:
  "i \<le> length program \<Longrightarrow> length program \<le> length (memory s) \<Longrightarrow>
   load_from i program s =
     Inr (s\<lparr>memory := take i (memory s) @ drop i program @ drop (length program) (memory s)\<rparr>)"
proof (induction i program s rule: load_from.induct)
  case (1 i program s)
  show ?case
  proof (cases "i < length program")
    case True
    let ?s' = "s\<lparr>memory := (memory s)[i := program ! i]\<rparr>"
    from True "1.prems" have im: "i < length (memory s)" by simp
    have "load_from i program s = load_from (i + 1) program ?s'"
      using True im by (subst load_from.simps) simp
    also have "\<dots> = Inr (?s'\<lparr>memory := take (i + 1) (memory ?s') @ drop (i + 1) program
        @ drop (length program) (memory ?s')\<rparr>)"
      using True im "1.prems" by (intro "1.IH") simp_all
    also have "take (i + 1) (memory ?s') = take i (memory s) @ [program ! i]"
      using im by (simp add: take_Suc_conv_app_nth)
    also have "drop (length program) (memory ?s') = drop (length program) (memory s)"
      using True by simp
    finally show ?thesis
      using True by (simp add: Cons_nth_drop_Suc)
  next
    case False
    with "1.prems" have "i = length program" by simp
    then show ?thesis
      by (subst load_from.simps) simp
  qed
qed

lemma load_program_eq:
  "length program \<le> length (memory s) \<Longrightarrow>
   load_program program s = Inr (s\<lparr>memory := program @ drop (length program) (memory s)\<rparr>)"
  by (simp add: load_program_def load_from_eq)

lemma load_program_RiscVEmu:
  "length program \<le> memory_size \<Longrightarrow>
   load_program program (RiscVEmu memory_size) =
     Inr \<lparr>registers = replicate 32 0,
          memory = program @ replicate (memory_size - length program) 0, pc = 0\<rparr>"
proof -
  assume le: "length program \<le> memory_size"
  then have "length program \<le> length (memory (RiscVEmu memory_size))"
    by (simp add: RiscVEmu_def)
  then have "load_program program (RiscVEmu memory_size) =
      Inr ((RiscVEmu memory_size)\<lparr>memory :=
        program @ drop (length program) (memory (RiscVEmu memory_size))\<rparr>)"
    by (rule load_program_eq)
  then show ?thesis
    by (simp add: RiscVEmu_def)
qed

subsection \<open>The run loop on words that do not jump\<close>

lemma cycle_no_jump:
  assumes "unat (pc s) < length (memory s)" "length (registers s) = 32"
    "opcode (decode (memory s ! unat (pc s))) \<noteq> JAL"
    "opcode (decode (memory s ! unat (pc s))) \<noteq> JALR"
  shows "\<exists>s'. cycle s = Inr s' \<and> pc s' = pc s + 1 \<and> memory s' = memory s
    \<and> length (registers s') = 32"
proof -
  let ?d = "decode (memory s ! unat (pc s))"
  have f: "fetch s = Inr (memory s ! unat (pc s), s\<lparr>pc := pc s + 1\<rparr>)"
    using assms(1) by (simp add: fetch_def)
  have b: "unat (rd ?d) < length (registers s)" "unat (rs1 ?d) < length (registers s)"
    "unat (rs2 ?d) < length (registers s)"
    using assms(2) by (simp_all add: decode_fields_less)
  have "\<exists>s'. execute ?d (s\<lparr>pc := pc s + 1\<rparr>) = Inr s' \<and> pc s' = pc s + 1
      \<and> memory s' = memory s \<and> length (registers s') = 32"
    using assms(2,3,4) b by (simp add: execute_def write_reg_def read_reg_def)
  then show ?thesis
    by (simp add: cycle_def f)
qed

text \<open>From any \<open>pc\<close> inside a memory without jumps, the loop makes one cycle per remaining
  word and stops with \<open>pc\<close> at the size of memory.\<close>

lemma run_loop_no_jump:
  assumes "length (registers s) = 32" "length (memory s) < 2 ^ 32"
    "unat (pc s) \<le> length (memory s)"
    "\<forall>w \<in> set (memory s). opcode (decode w) \<noteq> JAL \<and> opcode (decode w) \<noteq> JALR"
  shows "\<exists>s'. run_loop n s = Some (Inr (n + (length (memory s) - unat (pc s)), s'))
    \<and> memory s' = memory s \<and> unat (pc s') = length (memory s) \<and> length (registers s') = 32"
  using assms
proof (induction "length (memory s) - unat (pc s)" arbitrary: n s)
  case 0
  then have "\<not> unat (pc s) < length (memory s)" by simp
  then have "run_loop n s = Some (Inr (n, s))"
    by (subst run_loop.simps) simp
  with 0 show ?case by simp
next
  case (Suc k)
  then have lt: "unat (pc s) < length (memory s)" by simp
  then have "memory s ! unat (pc s) \<in> set (memory s)" by simp
  with Suc.prems(4) have nj: "opcode (decode (memory s ! unat (pc s))) \<noteq> JAL"
    "opcode (decode (memory s ! unat (pc s))) \<noteq> JALR" by blast+
  from cycle_no_jump [OF lt Suc.prems(1) nj]
  obtain s1 where s1: "cycle s = Inr s1" "pc s1 = pc s + 1" "memory s1 = memory s"
    "length (registers s1) = 32" by blast
  have u': "unat (pc s + 1) = unat (pc s) + 1"
    using lt Suc.prems(2) by (rule unat_pc_succ)
  have u: "unat (pc s1) = unat (pc s) + 1"
    by (simp add: s1(2) u')
  have k: "k = length (memory s1) - unat (pc s1)"
    using Suc.hyps(2) by (simp add: u s1(3))
  have "\<exists>s'. run_loop (Suc n) s1 = Some (Inr (Suc n + (length (memory s1) - unat (pc s1)), s'))
    \<and> memory s' = memory s1 \<and> unat (pc s') = length (memory s1) \<and> length (registers s') = 32"
    using lt Suc.prems by (intro Suc.hyps(1) [OF k]) (simp_all add: s1 u')
  then obtain s' where s':
    "run_loop (Suc n) s1 = Some (Inr (Suc n + (length (memory s1) - unat (pc s1)), s'))"
    "memory s' = memory s1" "unat (pc s') = length (memory s1)" "length (registers s') = 32"
    by blast
  have "run_loop n s = run_loop (Suc n) s1"
    using lt by (subst run_loop.simps) (simp add: s1(1))
  with s' lt show ?case
    by (simp add: s1(3) u)
qed

text \<open>The zero word has opcode 0, which \<open>execute\<close> does not implement: a cycle on it only
  advances \<open>pc\<close>, and a run over a tail of zero words changes nothing but \<open>pc\<close>.\<close>

lemma cycle_zero_word:
  assumes "unat (pc s) < length (memory s)" "memory s ! unat (pc s) = 0"
  shows "cycle s = Inr (s\<lparr>pc := pc s + 1\<rparr>)"
  using assms by (simp add: cycle_def fetch_def decode_def execute_def opcode_defs)

lemma run_loop_zeros:
  assumes "length (memory s) < 2 ^ 32" "unat (pc s) \<le> length (memory s)"
    "\<forall>i. unat (pc s) \<le> i \<longrightarrow> i < length (memory s) \<longrightarrow> memory s ! i = 0"
  shows "run_loop n s = Some (Inr (n + (length (memory s) - unat (pc s)),
    s\<lparr>pc := of_nat (length (memory s))\<rparr>))"
  using assms
proof (induction "length (memory s) - unat (pc s)" arbitrary: n s)
  case 0
  then have e: "length (memory s) = unat (pc s)" by simp
  then have "run_loop n s = Some (Inr (n, s))"
    by (subst run_loop.simps) simp
  then show ?case by (simp add: e)
next
  case (Suc k)
  then have lt: "unat (pc s) < length (memory s)" by simp
  let ?s1 = "s\<lparr>pc := pc s + 1\<rparr>"
  have c: "cycle s = Inr ?s1"
    using lt Suc.prems(3) by (intro cycle_zero_word) simp_all
  have u: "unat (pc s + 1) = unat (pc s) + 1"
    using lt Suc.prems(1) by (rule unat_pc_succ)
  have k: "k = length (memory ?s1) - unat (pc ?s1)"
    using Suc.hyps(2) u by simp
  have "run_loop (Suc n) ?s1 = Some (Inr (Suc n + (length (memory ?s1) - unat (pc ?s1)),
      ?s1\<lparr>pc := of_nat (length (memory ?s1))\<rparr>))"
    using lt Suc.prems u by (intro Suc.hyps(1) [OF k]) simp_all
  moreover have "run_loop n s = run_loop (Suc n) ?s1"
    using lt by (subst run_loop.simps) (simp add: c)
  ultimately show ?case
    using lt u by simp
qed

lemma replicate32_update0: "(replicate 32 (0 :: u32))[0 := 0] = replicate 32 0"
  by (simp add: numeral_eq_Suc)

section \<open>Decoding\<close>

text \<open>
  C8. The word \<open>0x00500113\<close> decodes to opcode \<open>ALU_IMM\<close> (\<open>0b0010011\<close>), \<open>rd = 2\<close>,
  \<open>funct3 = 000\<close>, \<open>rs1 = 0\<close> and immediate 5. The two fields the claim leaves open are
  \<open>rs2 = 5\<close> (the low five bits of the immediate field) and \<open>funct7 = 0\<close>.
\<close>

theorem decode_addi_x2_x0_5:
  "decode 0x00500113 =
     \<lparr>opcode = ALU_IMM, rd = 2, funct3 = ADD_SUB, rs1 = 0, rs2 = 5, funct7 = 0, imm = 5\<rparr>
   \<and> ALU_IMM = 0b0010011 \<and> ADD_SUB = 0 \<and> sint (imm (decode 0x00500113)) = 5"
  by (simp add: decode_def decode_imm_def opcode_defs)

text \<open>
  C1. The \<open>JAL\<close> case of \<open>decode\<close> ORs \<open>(instruction >> 12) & 0xFF\<close> into the immediate
  without the shift to the left by 12 that its comment \<open>imm[19:12]\<close> announces, so
  instruction bits 19..12 land in immediate bits 7..0. At the word \<open>0x0000106F\<close>
  (opcode \<open>JAL\<close>, only instruction bit 12 set besides the opcode) the immediate is 1:
  bit 0 is set and bit 12 is clear, where the claim has bit 12 set and bit 0 clear.
\<close>

theorem decode_jal_bit12_lands_in_bit0:
  "opcode (decode 0x0000106F) = JAL \<and> bit (0x0000106F :: u32) 12
   \<and> imm (decode 0x0000106F) = 1
   \<and> bit (imm (decode 0x0000106F)) 0 \<and> \<not> bit (imm (decode 0x0000106F)) 12"
  by (simp add: decode_def decode_imm_def opcode_defs)

text \<open>
  C6. For every instruction word the indices \<open>rd\<close>, \<open>rs1\<close> and \<open>rs2\<close> that \<open>decode\<close>
  returns are below 32, so on a register file of 32 entries \<open>execute\<close> of a decoded
  instruction makes no access out of bounds: it returns a state, whose register file
  has 32 entries again.
\<close>

theorem decoded_register_indices_in_bounds:
  assumes "length (registers s) = 32"
  shows "unat (rd (decode w)) < 32 \<and> unat (rs1 (decode w)) < 32 \<and> unat (rs2 (decode w)) < 32
    \<and> (\<exists>s'. execute (decode w) s = Inr s' \<and> length (registers s') = 32)"
proof -
  have "\<exists>s'. execute (decode w) s = Inr s' \<and> length (registers s') = length (registers s)
      \<and> memory s' = memory s"
    by (rule execute_ok) (simp_all add: assms decode_fields_less)
  then show ?thesis by (auto simp add: assms decode_fields_less)
qed

text \<open>The instance \<open>ADD x3, x2, x3\<close> (\<open>0x003101B3\<close>) on a freshly constructed emulator.\<close>

theorem decoded_register_indices_in_bounds_witness:
  "length (registers (RiscVEmu 4)) = 32 \<and> unat (rd (decode 0x003101B3)) < 32
   \<and> unat (rs1 (decode 0x003101B3)) < 32 \<and> unat (rs2 (decode 0x003101B3)) < 32
   \<and> (\<exists>s'. execute (decode 0x003101B3) (RiscVEmu 4) = Inr s' \<and> length (registers s') = 32)"
  using decoded_register_indices_in_bounds [of "RiscVEmu 4" "0x003101B3"]
  by (simp add: RiscVEmu_def)

section \<open>Executing one instruction\<close>

text \<open>
  C5. A decoded instruction that is none of \<open>LUI\<close>, \<open>AUIPC\<close>, \<open>JAL\<close>, \<open>JALR\<close>, \<open>ALU_IMM\<close>
  with \<open>funct3 = 000\<close>, \<open>ALU_REG\<close> with \<open>funct3 = 000\<close> and \<open>funct7\<close> one of \<open>0b0000000\<close>,
  \<open>0b0100000\<close> makes \<open>execute\<close> return the state it was given: no fault, and registers,
  program counter and memory as before.
\<close>

theorem execute_unrecognized_is_noop:
  assumes "opcode d \<notin> {LUI, AUIPC, JAL, JALR}"
    and "\<not> (opcode d = ALU_IMM \<and> funct3 d = ADD_SUB)"
    and "\<not> (opcode d = ALU_REG \<and> funct3 d = ADD_SUB \<and> funct7 d \<in> {0, 0x20})"
  shows "execute d s = Inr s"
  using assms by (auto simp add: execute_def)

text \<open>The instance \<open>0x00001013\<close>: opcode \<open>ALU_IMM\<close> with \<open>funct3 = 001\<close> (a shift, which
  the program does not implement).\<close>

theorem execute_unrecognized_is_noop_witness:
  "opcode (decode 0x00001013) \<notin> {LUI, AUIPC, JAL, JALR}
   \<and> \<not> (opcode (decode 0x00001013) = ALU_IMM \<and> funct3 (decode 0x00001013) = ADD_SUB)
   \<and> \<not> (opcode (decode 0x00001013) = ALU_REG \<and> funct3 (decode 0x00001013) = ADD_SUB
        \<and> funct7 (decode 0x00001013) \<in> {0, 0x20})
   \<and> execute (decode 0x00001013) (RiscVEmu 4) = Inr (RiscVEmu 4)"
  using execute_unrecognized_is_noop [of "decode 0x00001013" "RiscVEmu 4"]
  by (simp add: decode_def opcode_defs)

text \<open>
  C7. With the three register indices inside the register file, \<open>ADDI\<close>, \<open>ADD\<close> and \<open>SUB\<close>
  never fail, and the value \<open>v\<close> stored in \<open>R[rd]\<close> is the mathematical sum or difference
  of the operands reduced modulo \<open>2 ^ 32\<close>: for \<open>ADDI\<close> the unsigned value of \<open>R[rs1]\<close>
  plus the signed value of the immediate, for \<open>ADD\<close> and \<open>SUB\<close> the unsigned values of
  \<open>R[rs1]\<close> and \<open>R[rs2]\<close> added or subtracted.
\<close>

theorem alu_arithmetic_wraps:
  assumes "unat (rd d) < length (registers s)" "unat (rs1 d) < length (registers s)"
    "unat (rs2 d) < length (registers s)"
  shows "(opcode d = ALU_IMM \<and> funct3 d = ADD_SUB \<longrightarrow>
           (\<exists>v. execute d s = Inr (s\<lparr>registers := (registers s)[unat (rd d) := v]\<rparr>)
              \<and> uint v = (uint (registers s ! unat (rs1 d)) + sint (imm d)) mod 2 ^ 32))
       \<and> (opcode d = ALU_REG \<and> funct3 d = ADD_SUB \<and> funct7 d = 0 \<longrightarrow>
           (\<exists>v. execute d s = Inr (s\<lparr>registers := (registers s)[unat (rd d) := v]\<rparr>)
              \<and> uint v = (uint (registers s ! unat (rs1 d))
                  + uint (registers s ! unat (rs2 d))) mod 2 ^ 32))
       \<and> (opcode d = ALU_REG \<and> funct3 d = ADD_SUB \<and> funct7 d = 0x20 \<longrightarrow>
           (\<exists>v. execute d s = Inr (s\<lparr>registers := (registers s)[unat (rd d) := v]\<rparr>)
              \<and> uint v = (uint (registers s ! unat (rs1 d))
                  - uint (registers s ! unat (rs2 d))) mod 2 ^ 32))"
proof (intro conjI impI)
  assume "opcode d = ALU_IMM \<and> funct3 d = ADD_SUB"
  then have "execute d s = Inr (s\<lparr>registers :=
      (registers s)[unat (rd d) := registers s ! unat (rs1 d) + imm d]\<rparr>)"
    by (simp add: execute_writes(5) [OF assms])
  then show "\<exists>v. execute d s = Inr (s\<lparr>registers := (registers s)[unat (rd d) := v]\<rparr>)
      \<and> uint v = (uint (registers s ! unat (rs1 d)) + sint (imm d)) mod 2 ^ 32"
    using uint_add_sint by blast
next
  assume "opcode d = ALU_REG \<and> funct3 d = ADD_SUB \<and> funct7 d = 0"
  then have "execute d s = Inr (s\<lparr>registers :=
      (registers s)[unat (rd d) := registers s ! unat (rs1 d) + registers s ! unat (rs2 d)]\<rparr>)"
    by (simp add: execute_writes(6) [OF assms])
  moreover have "uint (registers s ! unat (rs1 d) + registers s ! unat (rs2 d))
      = (uint (registers s ! unat (rs1 d)) + uint (registers s ! unat (rs2 d))) mod 2 ^ 32"
    by (simp add: uint_word_ariths)
  ultimately show "\<exists>v. execute d s = Inr (s\<lparr>registers := (registers s)[unat (rd d) := v]\<rparr>)
      \<and> uint v = (uint (registers s ! unat (rs1 d))
          + uint (registers s ! unat (rs2 d))) mod 2 ^ 32"
    by blast
next
  assume "opcode d = ALU_REG \<and> funct3 d = ADD_SUB \<and> funct7 d = 0x20"
  then have "execute d s = Inr (s\<lparr>registers :=
      (registers s)[unat (rd d) := registers s ! unat (rs1 d) - registers s ! unat (rs2 d)]\<rparr>)"
    by (simp add: execute_writes(7) [OF assms])
  moreover have "uint (registers s ! unat (rs1 d) - registers s ! unat (rs2 d))
      = (uint (registers s ! unat (rs1 d)) - uint (registers s ! unat (rs2 d))) mod 2 ^ 32"
    by (simp add: uint_word_ariths)
  ultimately show "\<exists>v. execute d s = Inr (s\<lparr>registers := (registers s)[unat (rd d) := v]\<rparr>)
      \<and> uint v = (uint (registers s ! unat (rs1 d))
          - uint (registers s ! unat (rs2 d))) mod 2 ^ 32"
    by blast
qed

text \<open>
  Three instances, each one wrapping: \<open>ADDI x2, x1, -1\<close> (\<open>0xFFF08113\<close>) with \<open>R[1] = 0\<close>
  stores \<open>2 ^ 32 - 1\<close>; \<open>ADD x2, x1, x2\<close> (\<open>0x00208133\<close>) with \<open>R[1] = 0xFFFFFFFF\<close>,
  \<open>R[2] = 1\<close> stores 0; \<open>SUB x2, x1, x2\<close> (\<open>0x40208133\<close>) with \<open>R[1] = 0\<close>, \<open>R[2] = 1\<close>
  stores \<open>2 ^ 32 - 1\<close>.
\<close>

theorem alu_arithmetic_wraps_witness:
  "(\<exists>v. execute (decode 0xFFF08113) ((RiscVEmu 4)\<lparr>registers := (replicate 32 0)[1 := 0]\<rparr>)
        = Inr ((RiscVEmu 4)\<lparr>registers := (replicate 32 0)[1 := 0, 2 := v]\<rparr>)
      \<and> uint v = 4294967295)
   \<and> (\<exists>v. execute (decode 0x00208133)
          ((RiscVEmu 4)\<lparr>registers := (replicate 32 0)[1 := 0xFFFFFFFF, 2 := 1]\<rparr>)
        = Inr ((RiscVEmu 4)\<lparr>registers := (replicate 32 0)[1 := 0xFFFFFFFF, 2 := v]\<rparr>)
      \<and> uint v = 0)
   \<and> (\<exists>v. execute (decode 0x40208133)
          ((RiscVEmu 4)\<lparr>registers := (replicate 32 0)[1 := 0, 2 := 1]\<rparr>)
        = Inr ((RiscVEmu 4)\<lparr>registers := (replicate 32 0)[1 := 0, 2 := v]\<rparr>)
      \<and> uint v = 4294967295)"
  using
    alu_arithmetic_wraps [of "decode 0xFFF08113"
      "(RiscVEmu 4)\<lparr>registers := (replicate 32 0)[1 := 0]\<rparr>"]
    alu_arithmetic_wraps [of "decode 0x00208133"
      "(RiscVEmu 4)\<lparr>registers := (replicate 32 0)[1 := 0xFFFFFFFF, 2 := 1]\<rparr>"]
    alu_arithmetic_wraps [of "decode 0x40208133"
      "(RiscVEmu 4)\<lparr>registers := (replicate 32 0)[1 := 0, 2 := 1]\<rparr>"]
  by (simp add: decode_def decode_imm_def opcode_defs RiscVEmu_def)

text \<open>
  C9. Register 0 is an ordinary destination. On a register file of 32 entries, each of
  the seven implemented instructions with \<open>rd = 0\<close> stores its result in \<open>R[0]\<close>, and a
  read of register 0 in the resulting state returns that result: the immediate for
  \<open>LUI\<close>, \<open>pc\<close> plus the immediate for \<open>AUIPC\<close>, \<open>pc\<close> for \<open>JAL\<close> and \<open>JALR\<close>, the sum
  or difference of the operands for \<open>ADDI\<close>, \<open>ADD\<close> and \<open>SUB\<close>.
\<close>

theorem register_zero_is_written_and_read:
  assumes "rd d = 0" "length (registers s) = 32" "unat (rs1 d) < 32" "unat (rs2 d) < 32"
  shows
    "(opcode d = LUI \<longrightarrow>
        (\<exists>s'. execute d s = Inr s' \<and> read_reg 0 s' = Inr (imm d)))
   \<and> (opcode d = AUIPC \<longrightarrow>
        (\<exists>s'. execute d s = Inr s' \<and> read_reg 0 s' = Inr (pc s + imm d)))
   \<and> (opcode d = JAL \<longrightarrow>
        (\<exists>s'. execute d s = Inr s' \<and> read_reg 0 s' = Inr (pc s)))
   \<and> (opcode d = JALR \<longrightarrow>
        (\<exists>s'. execute d s = Inr s' \<and> read_reg 0 s' = Inr (pc s)))
   \<and> (opcode d = ALU_IMM \<and> funct3 d = ADD_SUB \<longrightarrow>
        (\<exists>s'. execute d s = Inr s'
           \<and> read_reg 0 s' = Inr (registers s ! unat (rs1 d) + imm d)))
   \<and> (opcode d = ALU_REG \<and> funct3 d = ADD_SUB \<and> funct7 d = 0 \<longrightarrow>
        (\<exists>s'. execute d s = Inr s'
           \<and> read_reg 0 s' = Inr (registers s ! unat (rs1 d) + registers s ! unat (rs2 d))))
   \<and> (opcode d = ALU_REG \<and> funct3 d = ADD_SUB \<and> funct7 d = 0x20 \<longrightarrow>
        (\<exists>s'. execute d s = Inr s'
           \<and> read_reg 0 s' = Inr (registers s ! unat (rs1 d) - registers s ! unat (rs2 d))))"
proof -
  have b: "unat (rd d) < length (registers s)" "unat (rs1 d) < length (registers s)"
    "unat (rs2 d) < length (registers s)"
    using assms by simp_all
  have ne: "registers s \<noteq> []"
    using assms(2) by auto
  show ?thesis
    using assms(1) ne by (simp add: execute_writes [OF b] read_reg_def)
qed

text \<open>
  The instance \<open>ADDI x0, x0, 5\<close> (\<open>0x00500013\<close>) on a freshly constructed emulator:
  \<open>R[0]\<close> becomes 5, and a following \<open>ADDI x1, x0, 0\<close> (\<open>0x00000093\<close>) copies that 5
  into \<open>R[1]\<close>.
\<close>

theorem register_zero_is_written_and_read_witness:
  "rd (decode 0x00500013) = 0 \<and> opcode (decode 0x00500013) = ALU_IMM
   \<and> funct3 (decode 0x00500013) = ADD_SUB
   \<and> (\<exists>s'. execute (decode 0x00500013) (RiscVEmu 4) = Inr s' \<and> read_reg 0 s' = Inr 5)
   \<and> execute (decode 0x00500013) (RiscVEmu 4)
       = Inr ((RiscVEmu 4)\<lparr>registers := (replicate 32 0)[0 := 5]\<rparr>)
   \<and> execute (decode 0x00000093) ((RiscVEmu 4)\<lparr>registers := (replicate 32 0)[0 := 5]\<rparr>)
       = Inr ((RiscVEmu 4)\<lparr>registers := (replicate 32 0)[0 := 5, 1 := 5]\<rparr>)"
  using register_zero_is_written_and_read [of "decode 0x00500013" "RiscVEmu 4"]
  by (simp add: decode_def decode_imm_def opcode_defs RiscVEmu_def execute_def read_reg_def
      write_reg_def)

text \<open>
  C10. For \<open>JALR\<close> with \<open>rd = rs1\<close> (the index inside the register file), \<open>execute\<close>
  stores the program counter it is called with, which is the one \<open>fetch\<close> has already
  advanced, in \<open>R[rd]\<close>, and the new program counter is that link value plus the
  immediate with bit 0 cleared; the value \<open>R[rs1]\<close> held before does not enter it.
\<close>

theorem jalr_same_register_uses_link:
  assumes "opcode d = JALR" "rd d = rs1 d" "unat (rd d) < length (registers s)"
  shows "execute d s = Inr (s\<lparr>registers := (registers s)[unat (rd d) := pc s],
    pc := (pc s + imm d) AND NOT 1\<rparr>)"
  using assms by (simp add: execute_def write_reg_def read_reg_def opcode_defs)

text \<open>
  The instance \<open>JALR x1, x1, 8\<close> (\<open>0x008080E7\<close>) with \<open>R[1] = 100\<close> and \<open>pc = 1\<close>: the new
  \<open>pc\<close> is \<open>(1 + 8) & ~1 = 8\<close>, not \<open>108\<close>.
\<close>

theorem jalr_same_register_uses_link_witness:
  "opcode (decode 0x008080E7) = JALR \<and> rd (decode 0x008080E7) = rs1 (decode 0x008080E7)
   \<and> unat (rd (decode 0x008080E7))
       < length (registers ((RiscVEmu 200)\<lparr>registers := (replicate 32 0)[1 := 100], pc := 1\<rparr>))
   \<and> execute (decode 0x008080E7)
        ((RiscVEmu 200)\<lparr>registers := (replicate 32 0)[1 := 100], pc := 1\<rparr>)
      = Inr ((RiscVEmu 200)\<lparr>registers := (replicate 32 0)[1 := 1], pc := 8\<rparr>)"
  using jalr_same_register_uses_link [of "decode 0x008080E7"
      "(RiscVEmu 200)\<lparr>registers := (replicate 32 0)[1 := 100], pc := 1\<rparr>"]
  by (simp add: decode_def decode_imm_def opcode_defs RiscVEmu_def)

section \<open>One cycle of the run loop\<close>

text \<open>
  The claim C3 as it is written fails. With \<open>JAL x1\<close> of immediate 8 (\<open>0x008000EF\<close>) at
  index 4, \<open>pc = 4\<close>, the word \<open>0x00000013\<close> at index 12 and \<open>0x00500113\<close> at index 13,
  one cycle sets \<open>R[1] = 5\<close> and \<open>pc = 13\<close>, and the next \<open>fetch\<close> returns the word at
  index 13.
\<close>

theorem jal_next_fetch_is_not_index_12:
  "cycle \<lparr>registers = replicate 32 0,
      memory = replicate 4 0 @ [0x008000EF] @ replicate 7 0 @ [0x00000013, 0x00500113],
      pc = 4\<rparr>
    = Inr \<lparr>registers = (replicate 32 0)[1 := 5],
      memory = replicate 4 0 @ [0x008000EF] @ replicate 7 0 @ [0x00000013, 0x00500113],
      pc = 13\<rparr>
   \<and> fetch \<lparr>registers = (replicate 32 0)[1 := 5],
      memory = replicate 4 0 @ [0x008000EF] @ replicate 7 0 @ [0x00000013, 0x00500113],
      pc = 13\<rparr>
    = Inr (0x00500113, \<lparr>registers = (replicate 32 0)[1 := 5],
      memory = replicate 4 0 @ [0x008000EF] @ replicate 7 0 @ [0x00000013, 0x00500113],
      pc = 14\<rparr>)
   \<and> (replicate 4 0 @ [0x008000EF] @ replicate 7 0 @ [0x00000013, 0x00500113 :: u32]) ! 12
    = 0x00000013
   \<and> imm (decode 0x008000EF) = 8 \<and> opcode (decode 0x008000EF) = JAL"
  by (simp add: cycle_eval_defs)

text \<open>
  C3, amended. When the word at index 4 is a \<open>JAL\<close> whose decoded immediate is 8, the
  register file has 32 entries and memory has more than 13 words, the cycle started at
  \<open>pc = 4\<close> sets \<open>R[rd] = 5\<close>, the program counter after \<open>fetch\<close>, and leaves \<open>pc = 13\<close>,
  that is \<open>5 + 8\<close>: the next \<open>fetch\<close> returns the word at index 13.
\<close>

theorem jal_at_pc4_imm8_links_5_continues_at_13:
  assumes "pc s = 4" "13 < length (memory s)" "length (registers s) = 32"
    "opcode (decode (memory s ! 4)) = JAL" "imm (decode (memory s ! 4)) = 8"
  shows "\<exists>s'. cycle s = Inr s' \<and> registers s' ! unat (rd (decode (memory s ! 4))) = 5
    \<and> pc s' = 13 \<and> fetch s' = Inr (memory s ! 13, s'\<lparr>pc := 14\<rparr>)"
proof -
  let ?d = "decode (memory s ! 4)"
  let ?s1 = "s\<lparr>pc := 5\<rparr>"
  have f: "fetch s = Inr (memory s ! 4, ?s1)"
    using assms(1,2) by (simp add: fetch_def)
  have b: "unat (rd ?d) < length (registers ?s1)" "unat (rs1 ?d) < length (registers ?s1)"
    "unat (rs2 ?d) < length (registers ?s1)"
    using assms(3) by (simp_all add: decode_fields_less)
  have e: "execute ?d ?s1 = Inr (?s1\<lparr>registers := (registers ?s1)[unat (rd ?d) := pc ?s1],
      pc := pc ?s1 + imm ?d\<rparr>)"
    using assms(4) by (rule execute_writes(3) [OF b])
  let ?s2 = "s\<lparr>pc := 13, registers := (registers s)[unat (rd ?d) := 5]\<rparr>"
  have c: "cycle s = Inr ?s2"
    by (simp add: cycle_def f e assms(5))
  have r: "registers ?s2 ! unat (rd ?d) = 5"
    using b(1) by simp
  have n: "fetch ?s2 = Inr (memory s ! 13, ?s2\<lparr>pc := 14\<rparr>)"
    using assms(2) by (simp add: fetch_def)
  have "cycle s = Inr ?s2 \<and> registers ?s2 ! unat (rd ?d) = 5 \<and> pc ?s2 = 13
      \<and> fetch ?s2 = Inr (memory s ! 13, ?s2\<lparr>pc := 14\<rparr>)"
    using c r n by simp
  then show ?thesis by blast
qed

text \<open>The instance: \<open>JAL x1\<close> of immediate 8 at index 4 of a memory of 14 words.\<close>

theorem jal_at_pc4_imm8_links_5_continues_at_13_witness:
  "opcode (decode 0x008000EF) = JAL \<and> imm (decode 0x008000EF) = 8
   \<and> rd (decode 0x008000EF) = 1
   \<and> (\<exists>s'. cycle \<lparr>registers = replicate 32 0,
          memory = replicate 4 0 @ [0x008000EF] @ replicate 7 0 @ [0x00000013, 0x00500113],
          pc = 4\<rparr> = Inr s'
        \<and> registers s' ! 1 = 5 \<and> pc s' = 13
        \<and> fetch s' = Inr (0x00500113, s'\<lparr>pc := 14\<rparr>))"
  using jal_at_pc4_imm8_links_5_continues_at_13 [of "\<lparr>registers = replicate 32 0,
      memory = replicate 4 0 @ [0x008000EF] @ replicate 7 0 @ [0x00000013, 0x00500113],
      pc = 4\<rparr>"]
  by (simp add: decode_def decode_imm_def opcode_defs nth_append)

section \<open>Running a program\<close>

text \<open>
  The claim C2 as it is written fails. The program \<open>[0x00000013]\<close> has one word and no
  jump; loaded into a memory of two words it runs for two fetch cycles, because the loop
  ends when \<open>pc\<close> reaches the size of memory, not the size of the program.
\<close>

theorem run_fetch_count_is_not_program_length:
  "load_and_run 2 [0x00000013] =
     Some (Inr (2, \<lparr>registers = replicate 32 0, memory = [0x00000013, 0], pc = 2\<rparr>))
   \<and> length [0x00000013 :: u32] = 1
   \<and> opcode (decode 0x00000013) \<noteq> JAL \<and> opcode (decode 0x00000013) \<noteq> JALR"
proof -
  let ?s0 = "\<lparr>registers = replicate 32 0, memory = [0x00000013, 0 :: u32], pc = 0\<rparr>"
  let ?s1 = "\<lparr>registers = replicate 32 0, memory = [0x00000013, 0 :: u32], pc = 1\<rparr>"
  let ?s2 = "\<lparr>registers = replicate 32 0, memory = [0x00000013, 0 :: u32], pc = 2\<rparr>"
  have l: "load_program [0x00000013] (RiscVEmu 2) = Inr ?s0"
    by (simp add: load_program_RiscVEmu numeral_eq_Suc)
  have c0: "cycle ?s0 = Inr ?s1"
    by (simp add: cycle_eval_defs replicate32_update0)
  have c1: "cycle ?s1 = Inr ?s2"
    by (simp add: cycle_eval_defs)
  have "run_loop 0 ?s0 = run_loop (Suc 0) ?s1"
    by (subst run_loop.simps) (simp add: c0)
  also have "\<dots> = run_loop (Suc (Suc 0)) ?s2"
    by (subst run_loop.simps) (simp add: c1)
  also have "\<dots> = Some (Inr (2, ?s2))"
    by (subst run_loop.simps) simp
  finally show ?thesis
    by (simp add: load_and_run_def l run_def decode_def opcode_defs)
qed

text \<open>
  C2, amended. For a memory of \<open>memory_size\<close> words, \<open>memory_size\<close> below \<open>2 ^ 32\<close>, and a
  program of at most \<open>memory_size\<close> words none of which has opcode \<open>JAL\<close> or \<open>JALR\<close>:
  constructing the emulator, loading the program and calling \<open>run\<close> returns, without a
  fault, after exactly \<open>memory_size\<close> fetch cycles, with \<open>pc\<close> equal to \<open>memory_size\<close>.
  The zero words behind the program are fetched and executed as well; the count is the
  length of the program only when the program fills memory.
\<close>

theorem run_without_jumps_makes_memory_size_cycles:
  assumes "length program \<le> memory_size" "memory_size < 2 ^ 32"
    "\<forall>w \<in> set program. opcode (decode w) \<noteq> JAL \<and> opcode (decode w) \<noteq> JALR"
  shows "\<exists>s. load_and_run memory_size program = Some (Inr (memory_size, s))
    \<and> unat (pc s) = memory_size"
proof -
  let ?s0 = "\<lparr>registers = replicate 32 0,
    memory = program @ replicate (memory_size - length program) 0, pc = 0\<rparr>"
  have l: "load_program program (RiscVEmu memory_size) = Inr ?s0"
    using assms(1) by (rule load_program_RiscVEmu)
  have z: "opcode (decode 0) \<noteq> JAL \<and> opcode (decode 0) \<noteq> JALR"
    by (simp add: decode_def opcode_defs)
  have nj: "\<forall>w \<in> set (memory ?s0). opcode (decode w) \<noteq> JAL \<and> opcode (decode w) \<noteq> JALR"
    using assms(3) z by auto
  have len: "length (memory ?s0) = memory_size"
    using assms(1) by simp
  have "\<exists>s'. run_loop 0 ?s0 = Some (Inr (0 + (length (memory ?s0) - unat (pc ?s0)), s'))
      \<and> memory s' = memory ?s0 \<and> unat (pc s') = length (memory ?s0)
      \<and> length (registers s') = 32"
    using assms(1,2) nj by (intro run_loop_no_jump) simp_all
  then obtain s' where "run_loop 0 ?s0 = Some (Inr (memory_size, s'))"
    "unat (pc s') = memory_size"
    using len by auto
  then show ?thesis
    by (auto simp add: load_and_run_def l run_def)
qed

text \<open>The instance: the four words of \<open>main\<close> in a memory of 1024 words, 1024 cycles.\<close>

theorem run_without_jumps_makes_memory_size_cycles_witness:
  "length [0x00000013, 0x00500113, 0x00600193, 0x003101B3 :: u32] \<le> 1024
   \<and> (1024 :: nat) < 2 ^ 32
   \<and> list_all (\<lambda>w. opcode (decode w) \<noteq> JAL \<and> opcode (decode w) \<noteq> JALR)
        [0x00000013, 0x00500113, 0x00600193, 0x003101B3]
   \<and> (\<exists>s. load_and_run 1024 [0x00000013, 0x00500113, 0x00600193, 0x003101B3]
          = Some (Inr (1024, s)) \<and> unat (pc s) = 1024)"
  using run_without_jumps_makes_memory_size_cycles
    [of "[0x00000013, 0x00500113, 0x00600193, 0x003101B3]" 1024]
  by (simp add: decode_def opcode_defs)

text \<open>
  C4. Constructing the emulator with the default memory size, loading
  \<open>[0x00000013, 0x00500113, 0x00600193, 0x003101B3]\<close> and calling \<open>run\<close> returns without
  a fault, with \<open>R[2] = 5\<close>, \<open>R[3] = 11\<close> and \<open>R[1] = 0\<close>; every other register is 0 too,
  and the run has made 1024 fetch cycles and ends with \<open>pc = 1024\<close>.
\<close>

theorem reference_program_result:
  "\<exists>s. load_and_run default_memory_size [0x00000013, 0x00500113, 0x00600193, 0x003101B3]
        = Some (Inr (1024, s))
     \<and> registers s ! 2 = 5 \<and> registers s ! 3 = 11 \<and> registers s ! 1 = 0
     \<and> registers s = [0, 0, 5, 11] @ replicate 28 0 \<and> pc s = 1024"
proof -
  let ?P = "[0x00000013, 0x00500113, 0x00600193, 0x003101B3 :: u32]"
  let ?M = "0x00000013 # 0x00500113 # 0x00600193 # 0x003101B3 # replicate 1020 (0 :: u32)"
  let ?s0 = "\<lparr>registers = replicate 32 0, memory = ?M, pc = 0\<rparr>"
  let ?s1 = "\<lparr>registers = replicate 32 0, memory = ?M, pc = 1\<rparr>"
  let ?s2 = "\<lparr>registers = (replicate 32 0)[2 := 5], memory = ?M, pc = 2\<rparr>"
  let ?s3 = "\<lparr>registers = (replicate 32 0)[2 := 5, 3 := 6], memory = ?M, pc = 3\<rparr>"
  let ?s4 = "\<lparr>registers = (replicate 32 0)[2 := 5, 3 := 11], memory = ?M, pc = 4\<rparr>"
  have l: "load_program ?P (RiscVEmu default_memory_size) = Inr ?s0"
    by (simp add: load_program_RiscVEmu default_memory_size_def)
  have c0: "cycle ?s0 = Inr ?s1"
    by (simp add: cycle_eval_defs replicate32_update0)
  have c1: "cycle ?s1 = Inr ?s2"
    by (simp add: cycle_eval_defs)
  have c2: "cycle ?s2 = Inr ?s3"
    by (simp add: cycle_eval_defs)
  have c3: "cycle ?s3 = Inr ?s4"
    by (simp add: cycle_eval_defs)
  have "run_loop 0 ?s0 = run_loop (Suc 0) ?s1"
    by (subst run_loop.simps) (simp add: c0)
  also have "\<dots> = run_loop (Suc (Suc 0)) ?s2"
    by (subst run_loop.simps) (simp add: c1)
  also have "\<dots> = run_loop (Suc (Suc (Suc 0))) ?s3"
    by (subst run_loop.simps) (simp add: c2)
  also have "\<dots> = run_loop (Suc (Suc (Suc (Suc 0)))) ?s4"
    by (subst run_loop.simps) (simp add: c3)
  also have "\<dots> = Some (Inr (Suc (Suc (Suc (Suc 0))) + (length (memory ?s4) - unat (pc ?s4)),
      ?s4\<lparr>pc := of_nat (length (memory ?s4))\<rparr>))"
    by (rule run_loop_zeros) (simp_all add: nth_Cons')
  finally have "run ?s0 = Some (Inr (1024, ?s4\<lparr>pc := 1024\<rparr>))"
    by (simp add: run_def)
  moreover have "(replicate 32 (0 :: u32))[2 := 5, 3 := 11] = [0, 0, 5, 11] @ replicate 28 0"
    by (simp add: numeral_eq_Suc)
  ultimately show ?thesis
    by (simp add: load_and_run_def l)
qed

end
